theory Spec2Isabelle
  imports Main
begin

section \<open>Strings\<close>

text \<open>
  A JavaScript string is a sequence of code units; it is modelled as a \<^typ>\<open>string\<close>
  (a list of characters).  The three string operations of \<^verbatim>\<open>src/index.ts\<close> work
  unit by unit, and the separator \<^verbatim>\<open>"/"\<close> and the prefixes \<^verbatim>\<open>"--"\<close>, \<^verbatim>\<open>"_"\<close> and
  \<^verbatim>\<open>"arangodb:///"\<close> are made of single-unit ASCII characters.
\<close>

text \<open>\<^verbatim>\<open>s.startsWith(searchString)\<close>.\<close>

definition startsWith :: "string \<Rightarrow> string \<Rightarrow> bool" where
  "startsWith s searchString = (take (length searchString) s = searchString)"

text \<open>\<^verbatim>\<open>s.slice(start)\<close> for \<open>0 \<le> start\<close>: the units from index \<open>start\<close> on.\<close>

definition slice :: "string \<Rightarrow> nat \<Rightarrow> string" where
  "slice s start = drop start s"

text \<open>
  \<^verbatim>\<open>s.split(separator)\<close> for a one-unit separator: the pieces between the occurrences of
  the separator, so the result has one more element than \<open>s\<close> has separators;
  \<^verbatim>\<open>"".split("/")\<close> is \<^verbatim>\<open>[""]\<close> and \<^verbatim>\<open>"a/".split("/")\<close> is \<^verbatim>\<open>["a", ""]\<close>.
\<close>

fun split :: "string \<Rightarrow> char \<Rightarrow> string list" where
  "split [] separator = [[]]"
| "split (c # cs) separator =
     (if c = separator then [] # split cs separator
      else (case split cs separator of
              [] \<Rightarrow> [[c]]
            | w # ws \<Rightarrow> (c # w) # ws))"

section \<open>URI parsing for resources\<close>

text \<open>
  The tagged union \<^verbatim>\<open>ArangoDBURI = ArangoDBCollectionURI | ArangoDBDocumentURI\<close>: the
  constructor is the \<^verbatim>\<open>type\<close> tag, the arguments are \<^verbatim>\<open>databaseName\<close>,
  \<^verbatim>\<open>collectionName\<close> and, for a document, \<^verbatim>\<open>documentId\<close>.
\<close>

datatype ArangoDBURI =
    ArangoDBCollectionURI string string
  | ArangoDBDocumentURI string string string

text \<open>\<^verbatim>\<open>class InvalidArangoDBURIError extends Error\<close>, carrying its message.\<close>

datatype uri_error = InvalidArangoDBURIError string

definition uri_prefix :: string where
  "uri_prefix = ''arangodb:///''"

definition msg_prefix :: string where
  "msg_prefix = ''URI must start with '' @ [CHR 0x22] @ ''arangodb:///'' @ [CHR 0x22]"

definition msg_components :: string where
  "msg_components =
     ''URI must have 2 or 3 components: databaseName/collectionName[/documentId]''"

definition msg_database :: string where
  "msg_database = ''Database name cannot be empty''"

definition msg_collection :: string where
  "msg_collection = ''Collection name cannot be empty''"

definition msg_document :: string where
  "msg_document = ''Document ID cannot be empty''"

text \<open>
  \<^verbatim>\<open>parseArangoDBURI\<close> (lines 183 to 228).  A \<^verbatim>\<open>throw\<close> is the left injection.  The
  destructuring \<^verbatim>\<open>[databaseName, collectionName, documentId] = components\<close> reads
  indices 0 and 1, which exist once the count check has passed, and index 2, which is
  read here only in the branch where the count is 3.  \<^verbatim>\<open>!x\<close> on a string is true exactly
  for the empty string.
\<close>

definition parseArangoDBURI :: "string \<Rightarrow> uri_error + ArangoDBURI" where
  "parseArangoDBURI uri =
     (if \<not> startsWith uri uri_prefix then Inl (InvalidArangoDBURIError msg_prefix)
      else
        let path = slice uri (length uri_prefix);
            components = split path (CHR ''/'')
        in
          if length components < 2 \<or> length components > 3
          then Inl (InvalidArangoDBURIError msg_components)
          else
            let databaseName = components ! 0;
                collectionName = components ! 1
            in
              if databaseName = [] then Inl (InvalidArangoDBURIError msg_database)
              else if collectionName = [] then Inl (InvalidArangoDBURIError msg_collection)
              else if length components = 2
              then Inr (ArangoDBCollectionURI databaseName collectionName)
              else
                let documentId = components ! 2
                in
                  if documentId = [] then Inl (InvalidArangoDBURIError msg_document)
                  else Inr (ArangoDBDocumentURI databaseName collectionName documentId))"

text \<open>
  The inverse direction as the specification words it: the literal prefix, then the
  components joined by \<^verbatim>\<open>/\<close>, with no escaping.  The collection case is also how the
  resource listing builds its \<^verbatim>\<open>uri\<close> field (line 254).
\<close>

fun buildArangoDBURI_spec :: "ArangoDBURI \<Rightarrow> string" where
  "buildArangoDBURI_spec (ArangoDBCollectionURI d c) = uri_prefix @ d @ ''/'' @ c"
| "buildArangoDBURI_spec (ArangoDBDocumentURI d c i) =
     uri_prefix @ d @ ''/'' @ c @ ''/'' @ i"

text \<open>
  The components that \<^verbatim>\<open>parseArangoDBURI\<close> computes in lines 190 and 191, named so that
  statements about the parser can speak of them.
\<close>

definition uri_components :: "string \<Rightarrow> string list" where
  "uri_components uri = split (slice uri (length uri_prefix)) (CHR ''/'')"

text \<open>\<^verbatim>\<open>parts.join(separator)\<close>, the inverse of \<^const>\<open>split\<close>; used in statements only.\<close>

fun join :: "string list \<Rightarrow> char \<Rightarrow> string" where
  "join [] separator = []"
| "join [w] separator = w"
| "join (w # v # ws) separator = w @ separator # join (v # ws) separator"

section \<open>Startup arguments\<close>

text \<open>
  \<^verbatim>\<open>KNOWN_FLAGS\<close> (line 28) and the test \<^verbatim>\<open>arg.startsWith("--")\<close> of line 35.
\<close>

definition KNOWN_FLAGS :: "string set" where
  "KNOWN_FLAGS = {''--enable-write'', ''--help''}"

definition is_flag :: "string \<Rightarrow> bool" where
  "is_flag arg = startsWith arg ''--''"

text \<open>
  The loop over \<^verbatim>\<open>rawArgs\<close> (lines 34 to 44), with its two accumulators \<^verbatim>\<open>flags\<close> (a
  \<^verbatim>\<open>Set\<close>) and \<^verbatim>\<open>positionals\<close> (an array, extended at its end).  \<^verbatim>\<open>printUsageAndExit(1)\<close>
  ends the process: the result is \<open>Inl\<close> of the exit code.  What the process prints to
  the error stream is not modelled.
\<close>

fun arg_loop :: "string list \<Rightarrow> string set \<Rightarrow> string list \<Rightarrow> nat + string set \<times> string list" where
  "arg_loop [] flags positionals = Inr (flags, positionals)"
| "arg_loop (arg # rest) flags positionals =
     (if is_flag arg then
        (if arg \<notin> KNOWN_FLAGS then Inl 1
         else arg_loop rest (insert arg flags) positionals)
      else arg_loop rest flags (positionals @ [arg]))"

text \<open>
  The top-level constants that the rest of the program reads: \<^verbatim>\<open>enableWrite\<close> (line 50),
  \<^verbatim>\<open>databaseUrl\<close> (line 59) and \<^verbatim>\<open>auth\<close> (line 64).
\<close>

record Globals =
  enableWrite :: bool
  databaseUrl :: string
  auth :: "(string \<times> string) option"

text \<open>
  Lines 61 to 64.  \<^verbatim>\<open>username\<close> and \<^verbatim>\<open>password\<close> are \<^verbatim>\<open>undefined\<close> (\<open>None\<close>) when the
  positional is missing.  \<^verbatim>\<open>username && password\<close> is truthy exactly when both are defined
  and neither is the empty string.
\<close>

definition credentials :: "string list \<Rightarrow> (string \<times> string) option" where
  "credentials positionals =
     (let username = (if length positionals > 1 then Some (positionals ! 1) else None);
          password = (if length positionals > 2 then Some (positionals ! 2) else None)
      in case (username, password) of
           (Some u, Some p) \<Rightarrow> if u \<noteq> [] \<and> p \<noteq> [] then Some (u, p) else None
         | _ \<Rightarrow> None)"

text \<open>Lines 30 to 64: the exit code, or the constants of a process that goes on.\<close>

definition parse_arguments :: "string list \<Rightarrow> nat + Globals" where
  "parse_arguments rawArgs =
     (case arg_loop rawArgs {} [] of
        Inl exitCode \<Rightarrow> Inl exitCode
      | Inr (flags, positionals) \<Rightarrow>
          if ''--help'' \<in> flags then Inl 0
          else if length positionals < 1 then Inl 1
          else Inr \<lparr> enableWrite = (''--enable-write'' \<in> flags),
                     databaseUrl = positionals ! 0,
                     auth = credentials positionals \<rparr>)"

section \<open>Connections and the connection cache\<close>

text \<open>
  A \<^verbatim>\<open>Database\<close> object of the driver, as far as this program determines it: the
  configuration given to \<^verbatim>\<open>new Database({url, databaseName, auth})\<close> and the identity of
  the object.  Two values of this type are the same instance exactly when their
  \<open>object_id\<close> agree; equal configurations do not make two objects the same.
\<close>

record Database =
  object_id :: nat
  config_url :: string
  config_databaseName :: "string option"
  config_auth :: "(string \<times> string) option"

text \<open>
  The mutable state of the process: the \<^verbatim>\<open>Map\<close> \<^verbatim>\<open>databaseConnections\<close> (line 111), and
  the number of \<^verbatim>\<open>Database\<close> objects constructed so far, which is the identity of the next
  one.  The log messages that the handlers send with \<^verbatim>\<open>debug\<close> and \<^verbatim>\<open>error\<close> are not part of
  it.
\<close>

record State =
  constructed :: nat
  databaseConnections :: "string \<rightharpoonup> Database"

definition new_Database ::
  "string \<Rightarrow> string option \<Rightarrow> (string \<times> string) option \<Rightarrow> State \<Rightarrow> Database \<times> State" where
  "new_Database url databaseName credentials' s =
     (\<lparr> object_id = constructed s, config_url = url,
         config_databaseName = databaseName, config_auth = credentials' \<rparr>,
      s\<lparr> constructed := Suc (constructed s) \<rparr>)"

text \<open>
  \<^verbatim>\<open>getOrCreateDatabaseConnection\<close> (lines 113 to 126).  The function has no \<^verbatim>\<open>await\<close>: it
  runs from its first line to its last without any other code of the process in
  between.
\<close>

definition getOrCreateDatabaseConnection ::
  "Globals \<Rightarrow> string \<Rightarrow> State \<Rightarrow> Database \<times> State" where
  "getOrCreateDatabaseConnection g databaseName s =
     (case databaseConnections s databaseName of
        Some dbConnector \<Rightarrow> (dbConnector, s)
      | None \<Rightarrow>
          (let (dbConnector, s') =
                 new_Database (databaseUrl g) (Some databaseName) (auth g) s
           in (dbConnector,
               s'\<lparr> databaseConnections :=
                     (databaseConnections s')(databaseName \<mapsto> dbConnector) \<rparr>)))"

section \<open>The server after startup\<close>

text \<open>
  The tools registered by lines 349 to 442, in order; \<^verbatim>\<open>readWriteQuery\<close> is inside
  \<^verbatim>\<open>if (enableWrite)\<close>.  The resources are the two templates of lines 235 and 305.
\<close>

definition register_tools :: "Globals \<Rightarrow> string list" where
  "register_tools g =
     [''readQuery'']
     @ (if enableWrite g then [''readWriteQuery''] else [])
     @ [''listDatabases'', ''listCollections'']"

definition register_resources :: "string list" where
  "register_resources = [''ArangoDB collection'', ''ArangoDB document'']"

record Server =
  globals :: Globals
  db :: Database
  registeredResources :: "string list"
  registeredTools :: "string list"
  state :: State

text \<open>
  The whole top level of \<^verbatim>\<open>src/index.ts\<close> up to \<^verbatim>\<open>runServer()\<close>: the arguments are parsed,
  \<^verbatim>\<open>db\<close> is constructed (line 66, with no \<^verbatim>\<open>databaseName\<close>), the cache starts empty, and
  the resources and tools are registered.
\<close>

definition startup :: "string list \<Rightarrow> nat + Server" where
  "startup rawArgs =
     (case parse_arguments rawArgs of
        Inl exitCode \<Rightarrow> Inl exitCode
      | Inr g \<Rightarrow>
          (let (root, s) = new_Database (databaseUrl g) None (auth g)
                             \<lparr> constructed = 0, databaseConnections = Map.empty \<rparr>
           in Inr \<lparr> globals = g, db = root,
                     registeredResources = register_resources,
                     registeredTools = register_tools g,
                     state = s \<rparr>))"

section \<open>The database server, as the driver shows it\<close>

text \<open>
  A rejected promise or a thrown exception of a handler: an error of the driver (no
  connection, unknown database or collection, a query that does not parse ...), a
  validation error of \<^verbatim>\<open>collectionSchema\<close>, or the protocol host's answer to a call of a
  tool that is not registered.
\<close>

datatype failure = DriverError string | ZodError | UnknownTool string

datatype json =
    JNull
  | JBool bool
  | JNumber int
  | JString string
  | JArray "json list"
  | JObject "(string \<times> json) list"

text \<open>\<^verbatim>\<open>CollectionType\<close> (line 108): \<^verbatim>\<open>{_id: string, name: string}\<close>.\<close>

record CollectionType =
  coll_id :: string
  coll_name :: string

text \<open>
  What the ArangoDB server answers at the moment of a request, database by database.
  The program fixes none of it; every claim is about all such answers.
  \<^item> \<open>all_databases\<close>: the names of the databases \<^verbatim>\<open>db.databases()\<close> resolves to;
  \<^item> \<open>COLLECTIONS d\<close>: the value of the AQL function \<^verbatim>\<open>COLLECTIONS()\<close> in database \<open>d\<close>,
    each collection with its \<^verbatim>\<open>_id\<close> and \<^verbatim>\<open>name\<close>, or the rejection of a query there;
  \<^item> \<open>execute d q\<close>: the rows of \<^verbatim>\<open>query(q)\<close> followed by \<^verbatim>\<open>cursor.all()\<close> in \<open>d\<close>;
  \<^item> \<open>collection_count d c\<close>: \<^verbatim>\<open>collection(c).count()\<close>, its field \<^verbatim>\<open>count\<close>;
  \<^item> \<open>collection_documents d c\<close>: the documents \<^verbatim>\<open>FOR doc IN c\<close> ranges over, in order;
  \<^item> \<open>fetch_document d c k\<close>: \<^verbatim>\<open>collection(c).document(k)\<close>.
\<close>

record ArangoDB =
  all_databases :: "failure + string list"
  COLLECTIONS :: "string \<Rightarrow> failure + CollectionType list"
  execute :: "string \<Rightarrow> string \<Rightarrow> failure + json list"
  collection_count :: "string \<Rightarrow> string \<Rightarrow> failure + int"
  collection_documents :: "string \<Rightarrow> string \<Rightarrow> failure + json list"
  fetch_document :: "string \<Rightarrow> string \<Rightarrow> string \<Rightarrow> failure + json"

text \<open>
  The database a connection talks to: its configured \<^verbatim>\<open>databaseName\<close>, and the driver's
  default \<^verbatim>\<open>_system\<close> when none was configured.
\<close>

definition database_of :: "Database \<Rightarrow> string" where
  "database_of dbConnection =
     (case config_databaseName dbConnection of Some n \<Rightarrow> n | None \<Rightarrow> ''_system'')"

section \<open>Listing collections\<close>

text \<open>
  The AQL query of \<^verbatim>\<open>getCollections\<close> (lines 130 to 135), evaluated on the value of
  \<^verbatim>\<open>COLLECTIONS()\<close>:
  \<^verbatim>\<open>FOR collection IN COLLECTIONS() FILTER !STARTS_WITH(collection.name, "_")
  RETURN {_id: collection._id, name: collection.name}\<close>.
\<close>

definition collections_query :: "CollectionType list \<Rightarrow> json list" where
  "collections_query cols =
     map (\<lambda>collection. JObject [(''_id'', JString (coll_id collection)),
                                 (''name'', JString (coll_name collection))])
       (filter (\<lambda>collection. \<not> startsWith (coll_name collection) ''_'') cols)"

text \<open>
  \<^verbatim>\<open>collectionSchema.parse\<close> (lines 101 to 106): a strict object schema, which accepts an
  object that has both keys with string values and has no other key.
\<close>

fun collectionSchema_parse :: "json \<Rightarrow> failure + CollectionType" where
  "collectionSchema_parse (JObject members) =
     (case (map_of members ''_id'', map_of members ''name'') of
        (Some (JString i), Some (JString n)) \<Rightarrow>
          if set (map fst members) \<subseteq> {''_id'', ''name''}
          then Inr \<lparr> coll_id = i, coll_name = n \<rparr>
          else Inl ZodError
      | _ \<Rightarrow> Inl ZodError)"
| "collectionSchema_parse _ = Inl ZodError"

text \<open>The loop of lines 141 to 143; the first row that fails validation throws.\<close>

fun parse_rows :: "json list \<Rightarrow> CollectionType list \<Rightarrow> failure + CollectionType list" where
  "parse_rows [] allCollections = Inr allCollections"
| "parse_rows (collection # result) allCollections =
     (case collectionSchema_parse collection of
        Inl e \<Rightarrow> Inl e
      | Inr parsed \<Rightarrow> parse_rows result (allCollections @ [parsed]))"

text \<open>\<^verbatim>\<open>getCollections\<close> (lines 128 to 146).\<close>

definition getCollections :: "ArangoDB \<Rightarrow> Database \<Rightarrow> failure + CollectionType list" where
  "getCollections env dbConnection =
     (case COLLECTIONS env (database_of dbConnection) of
        Inl e \<Rightarrow> Inl e
      | Inr cols \<Rightarrow> parse_rows (collections_query cols) [])"

text \<open>
  The handler of the tool \<^verbatim>\<open>listCollections\<close> (lines 427 to 441).  Its result is the
  value that the handler passes to \<^verbatim>\<open>JSON.stringify\<close>; the text that the library makes of
  it, and the \<^verbatim>\<open>content\<close> wrapper around the text, are not modelled.
\<close>

definition listCollections ::
  "Globals \<Rightarrow> ArangoDB \<Rightarrow> string \<Rightarrow> State \<Rightarrow> (failure + json) \<times> State" where
  "listCollections g env databaseName s =
     (let (dbConnector, s') = getOrCreateDatabaseConnection g databaseName s
      in case getCollections env dbConnector of
           Inl e \<Rightarrow> (Inl e, s')
         | Inr allCollections \<Rightarrow>
             (Inr (JArray (map (\<lambda>collection. JObject [(''name'', JString (coll_name collection))])
                          allCollections)),
              s'))"

section \<open>The collection resource listing\<close>

text \<open>An entry of the listing (lines 253 to 258).\<close>

record Resource =
  res_uri :: string
  res_mimeType :: string
  res_name :: string
  res_description :: string

definition resource_of :: "string \<Rightarrow> CollectionType \<Rightarrow> Resource" where
  "resource_of database collection =
     \<lparr> res_uri = ''arangodb:///'' @ database @ ''/'' @ coll_name collection,
       res_mimeType = ''application/json'',
       res_name = database @ ''/'' @ coll_name collection,
       res_description =
         ''Collection '' @ [CHR 0x22] @ coll_name collection @ [CHR 0x22]
         @ '' in database '' @ [CHR 0x22] @ database @ [CHR 0x22] \<rparr>"

text \<open>
  The callback given to \<^verbatim>\<open>userDatabases.map\<close> (lines 245 to 249), for one database: the
  cache lookup, then the promise of the pair of the database and its collections.
\<close>

definition collections_of_database ::
  "Globals \<Rightarrow> ArangoDB \<Rightarrow> string \<Rightarrow> State
     \<Rightarrow> (failure + string \<times> CollectionType list) \<times> State" where
  "collections_of_database g env database s =
     (let (dbConnection, s') = getOrCreateDatabaseConnection g database s
      in (case getCollections env dbConnection of
            Inl e \<Rightarrow> Inl e
          | Inr cols \<Rightarrow> Inr (database, cols),
          s'))"

text \<open>
  \<^verbatim>\<open>xs.map(callback)\<close> for a callback that changes the state: the calls are made in the
  order of the array, each on the state the previous one left.
\<close>

fun map_callback ::
  "('a \<Rightarrow> State \<Rightarrow> 'b \<times> State) \<Rightarrow> 'a list \<Rightarrow> State \<Rightarrow> 'b list \<times> State" where
  "map_callback f [] s = ([], s)"
| "map_callback f (x # xs) s =
     (let (y, s') = f x s;
          (ys, s'') = map_callback f xs s'
      in (y # ys, s''))"

text \<open>
  \<^verbatim>\<open>Promise.all\<close>: it resolves to the array of the values when every promise resolves, and
  rejects when one rejects.  When several reject, the reason is that of the one that
  rejects first in time; the model takes the first in the array, and no statement below
  depends on which reason it is.
\<close>

fun Promise_all :: "(failure + 'a) list \<Rightarrow> failure + 'a list" where
  "Promise_all [] = Inr []"
| "Promise_all (p # ps) =
     (case p of
        Inl e \<Rightarrow> Inl e
      | Inr x \<Rightarrow> (case Promise_all ps of Inl e \<Rightarrow> Inl e | Inr xs \<Rightarrow> Inr (x # xs)))"

text \<open>The \<^verbatim>\<open>list\<close> callback of the collection template (lines 238 to 262).\<close>

definition list_collection_resources ::
  "Globals \<Rightarrow> ArangoDB \<Rightarrow> State \<Rightarrow> (failure + Resource list) \<times> State" where
  "list_collection_resources g env s =
     (case all_databases env of
        Inl e \<Rightarrow> (Inl e, s)
      | Inr allDatabases \<Rightarrow>
          (let userDatabases = filter (\<lambda>d. d \<noteq> ''_system'') allDatabases;
               (promises, s') = map_callback (collections_of_database g env) userDatabases s
           in case Promise_all promises of
                Inl e \<Rightarrow> (Inl e, s')
              | Inr collectionsPerDb \<Rightarrow>
                  (Inr (concat (map (\<lambda>(database, cols). map (resource_of database) cols)
                                  collectionsPerDb)),
                   s')))"

section \<open>The other handlers\<close>

text \<open>
  Reading a collection resource (lines 268 to 301).  \<open>href\<close> is \<^verbatim>\<open>uri.href\<close>; the result is
  the \<^verbatim>\<open>uri\<close> of the content and the value handed to \<^verbatim>\<open>JSON.stringify\<close>.  The AQL query
  \<^verbatim>\<open>FOR doc IN collection LIMIT 10 RETURN doc\<close> yields the first ten documents.
\<close>

definition read_collection_resource ::
  "Globals \<Rightarrow> ArangoDB \<Rightarrow> string \<Rightarrow> string \<Rightarrow> string \<Rightarrow> State
     \<Rightarrow> (failure + string \<times> json) \<times> State" where
  "read_collection_resource g env href database collection s =
     (let (dbConnection, s') = getOrCreateDatabaseConnection g database s
      in (case collection_count env (database_of dbConnection) collection of
            Inl e \<Rightarrow> Inl e
          | Inr countResult \<Rightarrow>
              (case collection_documents env (database_of dbConnection) collection of
                 Inl e \<Rightarrow> Inl e
               | Inr docs \<Rightarrow>
                   Inr (href,
                        JObject [(''collection'', JString collection),
                                 (''database'', JString database),
                                 (''documentCount'', JNumber countResult),
                                 (''sampleDocuments'', JArray (take 10 docs))])),
          s'))"

text \<open>
  Reading a document resource (lines 314 to 341); the \<^verbatim>\<open>catch\<close> logs and throws the same
  error again.
\<close>

definition read_document_resource ::
  "Globals \<Rightarrow> ArangoDB \<Rightarrow> string \<Rightarrow> string \<Rightarrow> string \<Rightarrow> string \<Rightarrow> State
     \<Rightarrow> (failure + string \<times> json) \<times> State" where
  "read_document_resource g env href database collection documentID s =
     (let (dbConnection, s') = getOrCreateDatabaseConnection g database s
      in (case fetch_document env (database_of dbConnection) collection documentID of
            Inl e \<Rightarrow> Inl e
          | Inr document \<Rightarrow> Inr (href, document),
          s'))"

text \<open>
  The handlers of \<^verbatim>\<open>readQuery\<close> (lines 358 to 368) and \<^verbatim>\<open>readWriteQuery\<close> (lines 382 to
  392), which have the same body, and of \<^verbatim>\<open>listDatabases\<close> (lines 402 to 415).
\<close>

definition readQuery ::
  "Globals \<Rightarrow> ArangoDB \<Rightarrow> string \<Rightarrow> string \<Rightarrow> State \<Rightarrow> (failure + json) \<times> State" where
  "readQuery g env databaseName aqlQuery s =
     (let (dbConnector, s') = getOrCreateDatabaseConnection g databaseName s
      in (case execute env (database_of dbConnector) aqlQuery of
            Inl e \<Rightarrow> Inl e
          | Inr result \<Rightarrow> Inr (JArray result),
          s'))"

definition readWriteQuery ::
  "Globals \<Rightarrow> ArangoDB \<Rightarrow> string \<Rightarrow> string \<Rightarrow> State \<Rightarrow> (failure + json) \<times> State" where
  "readWriteQuery g env databaseName aqlQuery s =
     (let (dbConnector, s') = getOrCreateDatabaseConnection g databaseName s
      in (case execute env (database_of dbConnector) aqlQuery of
            Inl e \<Rightarrow> Inl e
          | Inr result \<Rightarrow> Inr (JArray result),
          s'))"

definition listDatabases :: "ArangoDB \<Rightarrow> State \<Rightarrow> (failure + json) \<times> State" where
  "listDatabases env s =
     (case all_databases env of
        Inl e \<Rightarrow> Inl e
      | Inr allDatabases \<Rightarrow>
          Inr (JArray (map (\<lambda>database. JObject [(''name'', JString database)]) allDatabases)),
      s)"

section \<open>The running process\<close>

text \<open>
  A request that the protocol host dispatches to one of the registered handlers, with
  the arguments the handler receives.
\<close>

datatype request =
    ListResources
  | ReadCollectionResource string string string
  | ReadDocumentResource string string string string
  | ReadQuery string string
  | ReadWriteQuery string string
  | ListDatabases
  | ListCollections string

datatype response =
    ResourceList "Resource list"
  | ResourceContents "string \<times> json"
  | ToolResult json

definition answer :: "('a \<Rightarrow> response) \<Rightarrow> (failure + 'a) \<times> State \<Rightarrow> (failure + response) \<times> State" where
  "answer wrap r = (map_sum id wrap (fst r), snd r)"

text \<open>A tool handler runs only if the tool was registered at startup.\<close>

definition call_tool ::
  "Server \<Rightarrow> string \<Rightarrow> (State \<Rightarrow> (failure + json) \<times> State) \<Rightarrow> State
     \<Rightarrow> (failure + response) \<times> State" where
  "call_tool srv tool handler s =
     (if tool \<in> set (registeredTools srv) then answer ToolResult (handler s)
      else (Inl (UnknownTool tool), s))"

fun handle :: "Server \<Rightarrow> ArangoDB \<Rightarrow> request \<Rightarrow> State \<Rightarrow> (failure + response) \<times> State" where
  "handle srv env ListResources s =
     answer ResourceList (list_collection_resources (globals srv) env s)"
| "handle srv env (ReadCollectionResource href database collection) s =
     answer ResourceContents
       (read_collection_resource (globals srv) env href database collection s)"
| "handle srv env (ReadDocumentResource href database collection documentID) s =
     answer ResourceContents
       (read_document_resource (globals srv) env href database collection documentID s)"
| "handle srv env (ReadQuery databaseName aqlQuery) s =
     call_tool srv ''readQuery'' (readQuery (globals srv) env databaseName aqlQuery) s"
| "handle srv env (ReadWriteQuery databaseName aqlQuery) s =
     call_tool srv ''readWriteQuery''
       (readWriteQuery (globals srv) env databaseName aqlQuery) s"
| "handle srv env ListDatabases s =
     call_tool srv ''listDatabases'' (listDatabases env) s"
| "handle srv env (ListCollections databaseName) s =
     call_tool srv ''listCollections'' (listCollections (globals srv) env databaseName) s"

text \<open>
  The life of the process after startup: a sequence of requests, each answered on the
  state the previous ones left and against what the database server holds at that
  moment.  Every handler reads and writes the cache inside one stretch of code without
  \<^verbatim>\<open>await\<close> (in the listing, the \<^verbatim>\<open>map\<close> of line 245), so requests in flight at the same time
  touch the cache one after the other, in some order; that order is the order of the
  list.
\<close>

fun run :: "Server \<Rightarrow> (ArangoDB \<times> request) list \<Rightarrow> State \<Rightarrow> State" where
  "run srv [] s = s"
| "run srv ((env, r) # rest) s = run srv rest (snd (handle srv env r s))"

text \<open>
  Every cached connection is the one made for its key.  The empty cache has this
  property and every handler keeps it.
\<close>

definition cache_ok :: "State \<Rightarrow> bool" where
  "cache_ok s =
     (\<forall>databaseName dbConnector. databaseConnections s databaseName = Some dbConnector
        \<longrightarrow> config_databaseName dbConnector = Some databaseName)"

section \<open>A concrete process\<close>

text \<open>
  A server started as \<^verbatim>\<open>arangodb-mcp-server http://localhost:8529\<close>, its state right after
  startup (\<^verbatim>\<open>db\<close> is object 0, the cache is empty), and a database server with the
  databases \<^verbatim>\<open>_system\<close>, \<^verbatim>\<open>mydb\<close> (with the collections \<^verbatim>\<open>users\<close> and \<^verbatim>\<open>_internal\<close>) and
  \<^verbatim>\<open>broken\<close> (where every query is rejected).
\<close>

definition example_globals :: Globals where
  "example_globals =
     \<lparr> enableWrite = False, databaseUrl = ''http://localhost:8529'', auth = None \<rparr>"

definition initial_state :: State where
  "initial_state = \<lparr> constructed = 1, databaseConnections = Map.empty \<rparr>"

definition example_server :: Server where
  "example_server =
     \<lparr> globals = example_globals,
       db = \<lparr> object_id = 0, config_url = ''http://localhost:8529'',
              config_databaseName = None, config_auth = None \<rparr>,
       registeredResources = [''ArangoDB collection'', ''ArangoDB document''],
       registeredTools = [''readQuery'', ''listDatabases'', ''listCollections''],
       state = initial_state \<rparr>"

definition example_connection :: Database where
  "example_connection =
     \<lparr> object_id = 1, config_url = ''http://localhost:8529'',
       config_databaseName = Some ''mydb'', config_auth = None \<rparr>"

definition example_cached :: State where
  "example_cached =
     \<lparr> constructed = 2, databaseConnections = [''mydb'' \<mapsto> example_connection] \<rparr>"

definition example_env :: ArangoDB where
  "example_env =
     \<lparr> all_databases = Inr [''_system'', ''mydb'', ''broken''],
       COLLECTIONS = (\<lambda>d.
         if d = ''mydb''
         then Inr [\<lparr> coll_id = ''101'', coll_name = ''users'' \<rparr>,
                   \<lparr> coll_id = ''102'', coll_name = ''_internal'' \<rparr>]
         else if d = ''_system'' then Inr []
         else Inl (DriverError ''database not found'')),
       execute = (\<lambda>d q. if d = ''broken'' then Inl (DriverError ''database not found'')
                          else Inr []),
       collection_count = (\<lambda>d c. Inr 0),
       collection_documents = (\<lambda>d c. Inr []),
       fetch_document = (\<lambda>d c k. Inl (DriverError ''document not found'')) \<rparr>"

definition example_steps :: "(ArangoDB \<times> request) list" where
  "example_steps =
     [(example_env, ListResources),
      (example_env, ReadQuery ''other'' ''RETURN 1''),
      (example_env, ReadWriteQuery ''third'' ''REMOVE 1 IN c''),
      (example_env, ListCollections ''mydb'')]"


section \<open>Properties of the string operations\<close>

lemma split_not_Nil: "split s sep \<noteq> []"
  by (induction s) (auto split: list.splits)

lemma split_no_separator: "sep \<notin> set w \<Longrightarrow> split w sep = [w]"
  by (induction w) auto

lemma split_append_separator:
  "sep \<notin> set w \<Longrightarrow> split (w @ sep # rest) sep = w # split rest sep"
  by (induction w) auto

lemma join_split: "join (split s sep) sep = s"
proof (induction s)
  case Nil
  show ?case by simp
next
  case (Cons c cs)
  obtain w ws where sp: "split cs sep = w # ws"
    using split_not_Nil [of cs sep] by (cases "split cs sep") auto
  show ?case
  proof (cases "c = sep")
    case True
    with Cons sp show ?thesis by simp
  next
    case False
    with Cons sp show ?thesis by (cases ws) auto
  qed
qed

lemma split_two: "split s sep = [a, b] \<Longrightarrow> s = a @ sep # b"
  using join_split [of s sep] by simp

lemma split_three: "split s sep = [a, b, c] \<Longrightarrow> s = a @ sep # b @ sep # c"
  using join_split [of s sep] by simp

lemma startsWith_decompose: "startsWith s p \<Longrightarrow> s = p @ slice s (length p)"
  unfolding startsWith_def slice_def by (metis append_take_drop_id)

lemma startsWith_append: "startsWith (p @ s) p"
  by (simp add: startsWith_def)

lemma slice_append: "slice (p @ s) (length p) = s"
  by (simp add: slice_def)

lemma length_two: "length xs = 2 \<Longrightarrow> xs = [xs ! 0, xs ! 1]"
  by (cases xs; cases "tl xs"; cases "tl (tl xs)") auto

lemma length_three: "length xs = 3 \<Longrightarrow> xs = [xs ! 0, xs ! 1, xs ! 2]"
  by (cases xs; cases "tl xs"; cases "tl (tl xs)"; cases "tl (tl (tl xs))") auto

lemma parse_collection:
  assumes "d \<noteq> []" "c \<noteq> []" "CHR ''/'' \<notin> set d" "CHR ''/'' \<notin> set c"
  shows "parseArangoDBURI (uri_prefix @ d @ ''/'' @ c) = Inr (ArangoDBCollectionURI d c)"
  using assms
  by (simp add: parseArangoDBURI_def startsWith_append slice_append
      split_append_separator split_no_separator)

lemma parse_document:
  assumes "d \<noteq> []" "c \<noteq> []" "i \<noteq> []" "CHR ''/'' \<notin> set d" "CHR ''/'' \<notin> set c" "CHR ''/'' \<notin> set i"
  shows "parseArangoDBURI (uri_prefix @ d @ ''/'' @ c @ ''/'' @ i) = Inr (ArangoDBDocumentURI d c i)"
  using assms
  by (simp add: parseArangoDBURI_def startsWith_append slice_append
      split_append_separator split_no_separator)

lemma parse_build:
  assumes "parseArangoDBURI u = Inr a"
  shows "buildArangoDBURI_spec a = u"
proof -
  let ?cs = "split (slice u (length uri_prefix)) (CHR ''/'')"
  from assms have pre: "startsWith u uri_prefix"
    by (auto simp: parseArangoDBURI_def split: if_splits)
  from assms have len: "length ?cs = 2 \<or> length ?cs = 3"
    by (auto simp: parseArangoDBURI_def Let_def split: if_splits)
  then show ?thesis
  proof
    assume l2: "length ?cs = 2"
    then have a: "a = ArangoDBCollectionURI (?cs ! 0) (?cs ! 1)"
      using assms pre by (auto simp: parseArangoDBURI_def Let_def split: if_splits)
    from length_two [OF l2] have "slice u (length uri_prefix) = ?cs ! 0 @ CHR ''/'' # ?cs ! 1"
      by (rule split_two)
    with startsWith_decompose [OF pre] a show ?thesis by simp
  next
    assume l3: "length ?cs = 3"
    then have a: "a = ArangoDBDocumentURI (?cs ! 0) (?cs ! 1) (?cs ! 2)"
      using assms pre by (auto simp: parseArangoDBURI_def Let_def split: if_splits)
    from length_three [OF l3]
    have "slice u (length uri_prefix) = ?cs ! 0 @ CHR ''/'' # ?cs ! 1 @ CHR ''/'' # ?cs ! 2"
      by (rule split_three)
    with startsWith_decompose [OF pre] a show ?thesis by simp
  qed
qed

lemma msgs_distinct: "distinct [msg_prefix, msg_components, msg_database, msg_collection, msg_document]"
  by (simp add: msg_prefix_def msg_components_def msg_database_def msg_collection_def msg_document_def)


lemma msgs_neq:
  "msg_prefix \<noteq> msg_components" "msg_prefix \<noteq> msg_database" "msg_prefix \<noteq> msg_collection"
  "msg_prefix \<noteq> msg_document" "msg_components \<noteq> msg_database"
  "msg_components \<noteq> msg_collection" "msg_components \<noteq> msg_document"
  "msg_database \<noteq> msg_collection" "msg_database \<noteq> msg_document"
  "msg_collection \<noteq> msg_document"
  using msgs_distinct by auto

lemma reject_prefix:
  "parseArangoDBURI uri = Inl (InvalidArangoDBURIError msg_prefix) \<longleftrightarrow>
     \<not> startsWith uri uri_prefix"
  using msgs_neq by (auto simp: parseArangoDBURI_def Let_def)

lemma reject_components:
  "parseArangoDBURI uri = Inl (InvalidArangoDBURIError msg_components) \<longleftrightarrow>
     startsWith uri uri_prefix \<and> length (uri_components uri) \<noteq> 2
       \<and> length (uri_components uri) \<noteq> 3"
  using msgs_neq by (auto simp: parseArangoDBURI_def Let_def uri_components_def)

lemma reject_database:
  "parseArangoDBURI uri = Inl (InvalidArangoDBURIError msg_database) \<longleftrightarrow>
     startsWith uri uri_prefix
       \<and> (length (uri_components uri) = 2 \<or> length (uri_components uri) = 3)
       \<and> uri_components uri ! 0 = []"
  using msgs_neq by (auto simp: parseArangoDBURI_def Let_def uri_components_def)

lemma reject_collection:
  "parseArangoDBURI uri = Inl (InvalidArangoDBURIError msg_collection) \<longleftrightarrow>
     startsWith uri uri_prefix
       \<and> (length (uri_components uri) = 2 \<or> length (uri_components uri) = 3)
       \<and> uri_components uri ! 0 \<noteq> [] \<and> uri_components uri ! 1 = []"
  using msgs_neq by (auto simp: parseArangoDBURI_def Let_def uri_components_def)

lemma reject_document:
  "parseArangoDBURI uri = Inl (InvalidArangoDBURIError msg_document) \<longleftrightarrow>
     startsWith uri uri_prefix \<and> length (uri_components uri) = 3
       \<and> uri_components uri ! 0 \<noteq> [] \<and> uri_components uri ! 1 \<noteq> []
       \<and> uri_components uri ! 2 = []"
  using msgs_neq by (auto simp: parseArangoDBURI_def Let_def uri_components_def)

lemma accept_collection:
  "parseArangoDBURI uri = Inr (ArangoDBCollectionURI d c) \<longleftrightarrow>
     startsWith uri uri_prefix \<and> uri_components uri = [d, c] \<and> d \<noteq> [] \<and> c \<noteq> []"
  by (auto simp: parseArangoDBURI_def Let_def uri_components_def dest: length_two)

lemma accept_document:
  "parseArangoDBURI uri = Inr (ArangoDBDocumentURI d c i) \<longleftrightarrow>
     startsWith uri uri_prefix \<and> uri_components uri = [d, c, i] \<and> d \<noteq> [] \<and> c \<noteq> []
       \<and> i \<noteq> []"
proof -
  have three: "length xs = 3" if "\<not> length xs < 2" "\<not> 3 < length xs" "length xs \<noteq> 2"
    for xs :: "string list"
    using that by arith
  show ?thesis
    by (auto simp: parseArangoDBURI_def Let_def uri_components_def
        dest!: three dest: length_three)
qed

lemma throws_iff:
  "isl (parseArangoDBURI uri) \<longleftrightarrow>
     \<not> startsWith uri uri_prefix
     \<or> (length (uri_components uri) \<noteq> 2 \<and> length (uri_components uri) \<noteq> 3)
     \<or> uri_components uri ! 0 = [] \<or> uri_components uri ! 1 = []
     \<or> (length (uri_components uri) = 3 \<and> uri_components uri ! 2 = [])"
proof -
  have "length (uri_components uri) = 2 \<or> length (uri_components uri) = 3 \<longleftrightarrow>
        \<not> (length (uri_components uri) < 2 \<or> length (uri_components uri) > 3)"
    by arith
  then show ?thesis
    by (auto simp: parseArangoDBURI_def Let_def uri_components_def)
qed

section \<open>Claims about URI parsing\<close>

text \<open>
  C2, as stated: for all strings \<open>d\<close> and \<open>c\<close> without \<^verbatim>\<open>/\<close>, parsing
  \<^verbatim>\<open>"arangodb:///" + d + "/" + c\<close> returns the collection address of \<open>d\<close> and \<open>c\<close>.
  This fails for the empty database name, which has no \<^verbatim>\<open>/\<close>: the guard of line 202
  throws.
\<close>

theorem parseArangoDBURI_round_trip_counterexample:
  "CHR ''/'' \<notin> set [] \<and> CHR ''/'' \<notin> set ''b''
   \<and> parseArangoDBURI (''arangodb:///'' @ [] @ ''/'' @ ''b'')
       = Inl (InvalidArangoDBURIError ''Database name cannot be empty'')
   \<and> parseArangoDBURI (''arangodb:///'' @ [] @ ''/'' @ ''b'')
       \<noteq> Inr (ArangoDBCollectionURI [] ''b'')"
  by (simp add: parseArangoDBURI_def startsWith_def slice_def uri_prefix_def
      msg_database_def)

text \<open>
  C2, amended: for all non-empty strings \<open>d\<close> and \<open>c\<close> without \<^verbatim>\<open>/\<close>, parsing
  \<^verbatim>\<open>"arangodb:///" + d + "/" + c\<close> returns the collection address
  \<^verbatim>\<open>{type: collection, databaseName: d, collectionName: c}\<close>; and if \<open>i\<close> too is non-empty
  and without \<^verbatim>\<open>/\<close>, parsing \<^verbatim>\<open>"arangodb:///" + d + "/" + c + "/" + i\<close> returns the document
  address \<^verbatim>\<open>{type: document, databaseName: d, collectionName: c, documentId: i}\<close>.
\<close>

theorem parseArangoDBURI_round_trip:
  assumes "d \<noteq> []" and "c \<noteq> []"
    and "CHR ''/'' \<notin> set d" and "CHR ''/'' \<notin> set c"
  shows "parseArangoDBURI (''arangodb:///'' @ d @ ''/'' @ c)
           = Inr (ArangoDBCollectionURI d c)
       \<and> (i \<noteq> [] \<and> CHR ''/'' \<notin> set i \<longrightarrow>
            parseArangoDBURI (''arangodb:///'' @ d @ ''/'' @ c @ ''/'' @ i)
              = Inr (ArangoDBDocumentURI d c i))"
proof -
  have pre: "''arangodb:///'' = uri_prefix"
    by (simp add: uri_prefix_def)
  show ?thesis
    unfolding pre using assms parse_collection [of d c] parse_document [of d c i]
    by simp
qed

theorem parseArangoDBURI_round_trip_witness:
  "parseArangoDBURI ''arangodb:///mydb/items'' = Inr (ArangoDBCollectionURI ''mydb'' ''items'')
   \<and> parseArangoDBURI ''arangodb:///mydb/items/42''
       = Inr (ArangoDBDocumentURI ''mydb'' ''items'' ''42'')"
  using parseArangoDBURI_round_trip [of "''mydb''" "''items''" "''42''"]
  by simp

text \<open>
  C3: \<^verbatim>\<open>parseArangoDBURI\<close> throws \<^verbatim>\<open>InvalidArangoDBURIError\<close> exactly when the input lacks the
  prefix \<^verbatim>\<open>arangodb:///\<close>, or the rest splits on \<^verbatim>\<open>/\<close> into a number of components other
  than 2 or 3, or the database name, the collection name or (when there are three
  components) the document id is empty.  Each cause has its own message, and the causes
  are checked in the order prefix, count, database, collection, document id: a message is
  raised exactly when its cause holds and no earlier one does.  On every other input the
  function returns the address made of the components.
\<close>

theorem parseArangoDBURI_rejection:
  fixes uri :: string
  defines "cs \<equiv> uri_components uri"
  defines "wellformed \<equiv> startsWith uri ''arangodb:///''"
  defines "thrown \<equiv> \<lambda>msg. parseArangoDBURI uri = Inl (InvalidArangoDBURIError msg)"
  shows "(thrown msg_prefix \<longleftrightarrow> \<not> wellformed)
       \<and> (thrown msg_components \<longleftrightarrow> wellformed \<and> length cs \<noteq> 2 \<and> length cs \<noteq> 3)
       \<and> (thrown msg_database \<longleftrightarrow>
            wellformed \<and> (length cs = 2 \<or> length cs = 3) \<and> cs ! 0 = [])
       \<and> (thrown msg_collection \<longleftrightarrow>
            wellformed \<and> (length cs = 2 \<or> length cs = 3) \<and> cs ! 0 \<noteq> [] \<and> cs ! 1 = [])
       \<and> (thrown msg_document \<longleftrightarrow>
            wellformed \<and> length cs = 3 \<and> cs ! 0 \<noteq> [] \<and> cs ! 1 \<noteq> [] \<and> cs ! 2 = [])
       \<and> distinct [msg_prefix, msg_components, msg_database, msg_collection, msg_document]
       \<and> (isl (parseArangoDBURI uri) \<longleftrightarrow>
            \<not> wellformed \<or> (length cs \<noteq> 2 \<and> length cs \<noteq> 3)
            \<or> cs ! 0 = [] \<or> cs ! 1 = [] \<or> (length cs = 3 \<and> cs ! 2 = []))
       \<and> (\<not> isl (parseArangoDBURI uri) \<longleftrightarrow>
            parseArangoDBURI uri = Inr (ArangoDBCollectionURI (cs ! 0) (cs ! 1))
              \<and> length cs = 2
            \<or> parseArangoDBURI uri = Inr (ArangoDBDocumentURI (cs ! 0) (cs ! 1) (cs ! 2))
              \<and> length cs = 3)"
proof -
  have w: "wellformed = startsWith uri uri_prefix"
    by (simp add: wellformed_def uri_prefix_def)
  have ok: "\<not> isl (parseArangoDBURI uri) \<longleftrightarrow>
            parseArangoDBURI uri = Inr (ArangoDBCollectionURI (cs ! 0) (cs ! 1))
              \<and> length cs = 2
            \<or> parseArangoDBURI uri = Inr (ArangoDBDocumentURI (cs ! 0) (cs ! 1) (cs ! 2))
              \<and> length cs = 3"
  proof (cases "parseArangoDBURI uri")
    case (Inl e)
    then show ?thesis by simp
  next
    case (Inr a)
    show ?thesis
    proof (cases a)
      case (ArangoDBCollectionURI d c)
      with Inr have "cs = [d, c]"
        by (simp add: accept_collection cs_def)
      with Inr ArangoDBCollectionURI show ?thesis by simp
    next
      case (ArangoDBDocumentURI d c i)
      with Inr have "cs = [d, c, i]"
        by (simp add: accept_document cs_def)
      with Inr ArangoDBDocumentURI show ?thesis by simp
    qed
  qed
  show ?thesis
    unfolding thrown_def w
    apply (intro conjI)
           apply (rule reject_prefix)
          apply (simp add: reject_components cs_def)
         apply (simp add: reject_database cs_def)
        apply (simp add: reject_collection cs_def)
       apply (simp add: reject_document cs_def)
      apply (rule msgs_distinct)
     apply (simp add: throws_iff cs_def)
    apply (rule ok)
    done
qed

theorem parseArangoDBURI_rejection_witness:
  "parseArangoDBURI ''foo:///a/b'' = Inl (InvalidArangoDBURIError msg_prefix)
   \<and> parseArangoDBURI ''arangodb:///onlyone'' = Inl (InvalidArangoDBURIError msg_components)
   \<and> parseArangoDBURI ''arangodb:///a/b/c/d'' = Inl (InvalidArangoDBURIError msg_components)
   \<and> parseArangoDBURI ''arangodb:////b'' = Inl (InvalidArangoDBURIError msg_database)
   \<and> parseArangoDBURI ''arangodb:///a/'' = Inl (InvalidArangoDBURIError msg_collection)
   \<and> parseArangoDBURI ''arangodb:///a/b/'' = Inl (InvalidArangoDBURIError msg_document)
   \<and> \<not> isl (parseArangoDBURI ''arangodb:///a/b'')"
  using parseArangoDBURI_rejection [of "''foo:///a/b''"]
    parseArangoDBURI_rejection [of "''arangodb:///onlyone''"]
    parseArangoDBURI_rejection [of "''arangodb:///a/b/c/d''"]
    parseArangoDBURI_rejection [of "''arangodb:////b''"]
    parseArangoDBURI_rejection [of "''arangodb:///a/''"]
    parseArangoDBURI_rejection [of "''arangodb:///a/b/''"]
    parseArangoDBURI_rejection [of "''arangodb:///a/b''"]
  by (simp add: startsWith_def uri_components_def slice_def uri_prefix_def)

text \<open>
  C10: whenever \<^verbatim>\<open>parseArangoDBURI\<close> succeeds on \<open>u\<close>, the prefix \<^verbatim>\<open>arangodb:///\<close> followed by
  the returned components joined by \<^verbatim>\<open>/\<close> is \<open>u\<close> again; hence no other input is parsed to
  the same address, that is, the parser is injective on the inputs it accepts.
\<close>

theorem parseArangoDBURI_reverse_round_trip:
  assumes "parseArangoDBURI u = Inr a"
  shows "buildArangoDBURI_spec a = u \<and> (\<forall>v. parseArangoDBURI v = Inr a \<longrightarrow> v = u)"
proof -
  have rebuilt: "buildArangoDBURI_spec a = u"
    using assms by (rule parse_build)
  have "v = u" if "parseArangoDBURI v = Inr a" for v
  proof -
    have "buildArangoDBURI_spec a = v"
      using that by (rule parse_build)
    from this rebuilt show ?thesis by (rule trans [OF sym])
  qed
  then have "\<forall>v. parseArangoDBURI v = Inr a \<longrightarrow> v = u"
    by blast
  with rebuilt show ?thesis by (rule conjI)
qed

theorem parseArangoDBURI_reverse_round_trip_witness:
  "parseArangoDBURI ''arangodb:///mydb/items/42''
     = Inr (ArangoDBDocumentURI ''mydb'' ''items'' ''42'')
   \<and> buildArangoDBURI_spec (ArangoDBDocumentURI ''mydb'' ''items'' ''42'')
       = ''arangodb:///mydb/items/42''"
proof -
  have p: "parseArangoDBURI ''arangodb:///mydb/items/42''
             = Inr (ArangoDBDocumentURI ''mydb'' ''items'' ''42'')"
    by (simp add: parseArangoDBURI_def startsWith_def slice_def uri_prefix_def)
  from parseArangoDBURI_reverse_round_trip [OF p]
  have "buildArangoDBURI_spec (ArangoDBDocumentURI ''mydb'' ''items'' ''42'')
          = ''arangodb:///mydb/items/42''"
    by (rule conjunct1)
  with p show ?thesis by (rule conjI)
qed

section \<open>Properties of startup\<close>

lemma arg_loop_eq:
  "arg_loop rawArgs flags positionals =
     (if \<exists>a \<in> set rawArgs. is_flag a \<and> a \<notin> KNOWN_FLAGS then Inl 1
      else Inr (flags \<union> set (filter is_flag rawArgs),
                positionals @ filter (\<lambda>a. \<not> is_flag a) rawArgs))"
  by (induction rawArgs arbitrary: flags positionals) auto

lemma parse_arguments_eq:
  "parse_arguments rawArgs =
     (if \<exists>a \<in> set rawArgs. is_flag a \<and> a \<notin> KNOWN_FLAGS then Inl 1
      else if ''--help'' \<in> set (filter is_flag rawArgs) then Inl 0
      else if filter (\<lambda>a. \<not> is_flag a) rawArgs = [] then Inl 1
      else Inr \<lparr> enableWrite = (''--enable-write'' \<in> set (filter is_flag rawArgs)),
                 databaseUrl = filter (\<lambda>a. \<not> is_flag a) rawArgs ! 0,
                 auth = credentials (filter (\<lambda>a. \<not> is_flag a) rawArgs) \<rparr>)"
  by (simp add: parse_arguments_def arg_loop_eq)

lemma enable_write_is_flag: "is_flag ''--enable-write''"
  by (simp add: is_flag_def startsWith_def)

lemma startup_Inr:
  assumes "startup rawArgs = Inr srv"
  shows "parse_arguments rawArgs = Inr (globals srv)"
    and "registeredTools srv = register_tools (globals srv)"
    and "db srv = \<lparr> object_id = 0, config_url = databaseUrl (globals srv),
                     config_databaseName = None, config_auth = auth (globals srv) \<rparr>"
    and "state srv = \<lparr> constructed = 1, databaseConnections = Map.empty \<rparr>"
  using assms
  by (auto simp: startup_def new_Database_def split: sum.splits)

lemma parse_arguments_Inr:
  assumes "parse_arguments rawArgs = Inr g"
  shows "enableWrite g = (''--enable-write'' \<in> set rawArgs)"
    and "databaseUrl g = filter (\<lambda>a. \<not> is_flag a) rawArgs ! 0"
    and "auth g = credentials (filter (\<lambda>a. \<not> is_flag a) rawArgs)"
    and "filter (\<lambda>a. \<not> is_flag a) rawArgs \<noteq> []"
  using assms enable_write_is_flag
  by (auto simp: parse_arguments_eq split: if_splits)

lemma credentials_simps:
  "credentials [] = None" "credentials [u] = None" "credentials [u, n] = None"
  "credentials (u # n # p # rest) = (if n \<noteq> [] \<and> p \<noteq> [] then Some (n, p) else None)"
  by (simp_all add: credentials_def)

lemma credentials_None_iff:
  "credentials ps = None \<longleftrightarrow>
     \<not> (2 < length ps \<and> ps ! 1 \<noteq> [] \<and> ps ! 2 \<noteq> [])"
  by (auto simp: credentials_def)

lemma startup_depends:
  assumes "set (filter is_flag rawArgs') = set (filter is_flag rawArgs)"
    and "filter (\<lambda>a. \<not> is_flag a) rawArgs' \<noteq> []"
    and "filter (\<lambda>a. \<not> is_flag a) rawArgs \<noteq> []"
    and "filter (\<lambda>a. \<not> is_flag a) rawArgs' ! 0 = filter (\<lambda>a. \<not> is_flag a) rawArgs ! 0"
    and "credentials (filter (\<lambda>a. \<not> is_flag a) rawArgs')
           = credentials (filter (\<lambda>a. \<not> is_flag a) rawArgs)"
  shows "startup rawArgs' = startup rawArgs"
proof -
  have "(\<exists>a \<in> set rawArgs'. is_flag a \<and> a \<notin> KNOWN_FLAGS)
          \<longleftrightarrow> (\<exists>a \<in> set (filter is_flag rawArgs'). a \<notin> KNOWN_FLAGS)"
    by auto
  also have "\<dots> \<longleftrightarrow> (\<exists>a \<in> set (filter is_flag rawArgs). a \<notin> KNOWN_FLAGS)"
    using assms(1) by simp
  also have "\<dots> \<longleftrightarrow> (\<exists>a \<in> set rawArgs. is_flag a \<and> a \<notin> KNOWN_FLAGS)"
    by auto
  finally have "parse_arguments rawArgs' = parse_arguments rawArgs"
    unfolding parse_arguments_eq using assms by simp
  then show ?thesis by (simp add: startup_def)
qed

lemma getOrCreate_auth:
  "databaseConnections s n = None \<Longrightarrow>
     config_auth (fst (getOrCreateDatabaseConnection g n s)) = auth g"
  by (simp add: getOrCreateDatabaseConnection_def new_Database_def)

lemma startup_with_write:
  "startup [''--enable-write'', ''http://localhost:8529'', ''root'']
     = Inr \<lparr> globals = \<lparr> enableWrite = True, databaseUrl = ''http://localhost:8529'',
                          auth = None \<rparr>,
               db = \<lparr> object_id = 0, config_url = ''http://localhost:8529'',
                      config_databaseName = None, config_auth = None \<rparr>,
               registeredResources = [''ArangoDB collection'', ''ArangoDB document''],
               registeredTools =
                 [''readQuery'', ''readWriteQuery'', ''listDatabases'', ''listCollections''],
               state = \<lparr> constructed = 1, databaseConnections = Map.empty \<rparr> \<rparr>"
  by (simp add: startup_def parse_arguments_def is_flag_def startsWith_def KNOWN_FLAGS_def
      credentials_def new_Database_def register_tools_def register_resources_def)

lemma startup_without_write:
  "startup [''http://localhost:8529'', ''root'', ''secret'']
     = Inr \<lparr> globals = \<lparr> enableWrite = False, databaseUrl = ''http://localhost:8529'',
                          auth = Some (''root'', ''secret'') \<rparr>,
               db = \<lparr> object_id = 0, config_url = ''http://localhost:8529'',
                      config_databaseName = None, config_auth = Some (''root'', ''secret'') \<rparr>,
               registeredResources = [''ArangoDB collection'', ''ArangoDB document''],
               registeredTools = [''readQuery'', ''listDatabases'', ''listCollections''],
               state = \<lparr> constructed = 1, databaseConnections = Map.empty \<rparr> \<rparr>"
  by (simp add: startup_def parse_arguments_def is_flag_def startsWith_def KNOWN_FLAGS_def
      credentials_def new_Database_def register_tools_def register_resources_def)

lemma startup_exits:
  "startup [''--bogus-flag'', ''http://host''] = Inl 1"
  "startup [''--help''] = Inl 0"
  "startup [''--enable-write''] = Inl 1"
  by (simp_all add: startup_def parse_arguments_def is_flag_def startsWith_def
      KNOWN_FLAGS_def)

section \<open>Claims about startup\<close>

text \<open>
  C4: the tool \<^verbatim>\<open>readWriteQuery\<close> is among the registered tools exactly when
  \<^verbatim>\<open>enableWrite\<close> is true, and \<^verbatim>\<open>readQuery\<close> is registered in both cases; and in a process
  that gets past its argument checks and registers its capabilities, \<^verbatim>\<open>enableWrite\<close> is
  true exactly when \<^verbatim>\<open>--enable-write\<close> is among the arguments, so that \<^verbatim>\<open>readWriteQuery\<close> is
  registered exactly when the flag is given.  (A process that exits on its arguments
  registers nothing.)
\<close>

theorem write_gate:
  "(''readWriteQuery'' \<in> set (register_tools g) \<longleftrightarrow> enableWrite g)
   \<and> ''readQuery'' \<in> set (register_tools g)
   \<and> (startup rawArgs = Inr srv \<longrightarrow>
         registeredTools srv = register_tools (globals srv)
         \<and> enableWrite (globals srv) = (''--enable-write'' \<in> set rawArgs)
         \<and> (''readWriteQuery'' \<in> set (registeredTools srv)
              \<longleftrightarrow> ''--enable-write'' \<in> set rawArgs)
         \<and> ''readQuery'' \<in> set (registeredTools srv))"
proof -
  have tools: "(''readWriteQuery'' \<in> set (register_tools g') \<longleftrightarrow> enableWrite g')
      \<and> ''readQuery'' \<in> set (register_tools g')" for g'
    by (simp add: register_tools_def)
  have "registeredTools srv = register_tools (globals srv)
      \<and> enableWrite (globals srv) = (''--enable-write'' \<in> set rawArgs)
      \<and> (''readWriteQuery'' \<in> set (registeredTools srv)
           \<longleftrightarrow> ''--enable-write'' \<in> set rawArgs)
      \<and> ''readQuery'' \<in> set (registeredTools srv)"
    if started: "startup rawArgs = Inr srv"
    using startup_Inr(2) [OF started]
      parse_arguments_Inr(1) [OF startup_Inr(1) [OF started]] tools [of "globals srv"]
    by simp
  with tools [of g] show ?thesis by blast
qed

theorem write_gate_witness:
  "(\<exists>srv. startup [''--enable-write'', ''http://localhost:8529'', ''root''] = Inr srv
      \<and> ''readWriteQuery'' \<in> set (registeredTools srv)
      \<and> ''readQuery'' \<in> set (registeredTools srv))
   \<and> (\<exists>srv. startup [''http://localhost:8529'', ''root'', ''secret''] = Inr srv
      \<and> ''readWriteQuery'' \<notin> set (registeredTools srv)
      \<and> ''readQuery'' \<in> set (registeredTools srv))"
proof -
  obtain srv where a: "startup [''--enable-write'', ''http://localhost:8529'', ''root''] = Inr srv"
    using startup_with_write by blast
  obtain srv' where b: "startup [''http://localhost:8529'', ''root'', ''secret''] = Inr srv'"
    using startup_without_write by blast
  have "''readWriteQuery'' \<in> set (registeredTools srv) \<and> ''readQuery'' \<in> set (registeredTools srv)"
    using write_gate [of _ "[''--enable-write'', ''http://localhost:8529'', ''root'']" srv] a
    by simp
  moreover
  have "''readWriteQuery'' \<notin> set (registeredTools srv') \<and> ''readQuery'' \<in> set (registeredTools srv')"
    using write_gate [of _ "[''http://localhost:8529'', ''root'', ''secret'']" srv'] b
    by simp
  ultimately show ?thesis using a b by blast
qed

text \<open>
  C6: when the arguments hold a username positional and no password positional (the
  positionals are the URL and the username), the startup is the same as a startup with
  the same flags and the URL alone: and the connection configuration carries no
  credentials, in \<^verbatim>\<open>auth\<close>, in \<^verbatim>\<open>db\<close> and in every connection the cache creates.
\<close>

theorem credential_pairing:
  assumes "filter (\<lambda>a. \<not> is_flag a) rawArgs = [url, username]"
    and "filter (\<lambda>a. \<not> is_flag a) rawArgs' = [url]"
    and "set (filter is_flag rawArgs') = set (filter is_flag rawArgs)"
  shows "startup rawArgs = startup rawArgs'
       \<and> (\<forall>srv. startup rawArgs = Inr srv \<longrightarrow>
             auth (globals srv) = None \<and> config_auth (db srv) = None
             \<and> (\<forall>s n. databaseConnections s n = None \<longrightarrow>
                   config_auth (fst (getOrCreateDatabaseConnection (globals srv) n s)) = None))"
proof -
  have same: "startup rawArgs = startup rawArgs'"
    using assms by (intro startup_depends [symmetric]) (simp_all add: credentials_simps)
  have none: "auth (globals srv) = None \<and> config_auth (db srv) = None
      \<and> (\<forall>s n. databaseConnections s n = None \<longrightarrow>
            config_auth (fst (getOrCreateDatabaseConnection (globals srv) n s)) = None)"
    if "startup rawArgs = Inr srv" for srv
  proof -
    have "auth (globals srv) = None"
      using parse_arguments_Inr(3) [OF startup_Inr(1) [OF that]] assms(1)
      by (simp add: credentials_simps)
    then show ?thesis
      using startup_Inr(3) [OF that] by (simp add: getOrCreate_auth)
  qed
  from same none show ?thesis by blast
qed

theorem credential_pairing_witness:
  "startup [''--enable-write'', ''http://localhost:8529'', ''root'']
     = startup [''http://localhost:8529'', ''--enable-write'']
   \<and> (\<exists>srv. startup [''--enable-write'', ''http://localhost:8529'', ''root''] = Inr srv
          \<and> auth (globals srv) = None \<and> config_auth (db srv) = None)"
proof -
  have p: "filter (\<lambda>a. \<not> is_flag a) [''--enable-write'', ''http://localhost:8529'', ''root'']
             = [''http://localhost:8529'', ''root'']"
    by (simp add: is_flag_def startsWith_def)
  have p': "filter (\<lambda>a. \<not> is_flag a) [''http://localhost:8529'', ''--enable-write'']
             = [''http://localhost:8529'']"
    by (simp add: is_flag_def startsWith_def)
  have f: "set (filter is_flag [''http://localhost:8529'', ''--enable-write''])
             = set (filter is_flag [''--enable-write'', ''http://localhost:8529'', ''root''])"
    by (simp add: is_flag_def startsWith_def)
  have s: "\<exists>srv. startup [''--enable-write'', ''http://localhost:8529'', ''root''] = Inr srv"
    using startup_with_write by blast
  from credential_pairing [OF p p' f] s show ?thesis by blast
qed

text \<open>
  C9: if the username positional or the password positional is the empty string, the
  connection configuration carries no credentials: \<^verbatim>\<open>username && password\<close> is a test of
  truthiness, and the empty string is falsy.
\<close>

theorem empty_credentials_absent:
  assumes "startup rawArgs = Inr srv"
    and "positionals = filter (\<lambda>a. \<not> is_flag a) rawArgs"
    and "(1 < length positionals \<and> positionals ! 1 = [])
         \<or> (2 < length positionals \<and> positionals ! 2 = [])"
  shows "auth (globals srv) = None \<and> config_auth (db srv) = None"
proof -
  have "credentials positionals = None"
    using assms(3) by (auto simp: credentials_None_iff)
  then have "auth (globals srv) = None"
    using parse_arguments_Inr(3) [OF startup_Inr(1) [OF assms(1)]] assms(2) by simp
  then show ?thesis
    using startup_Inr(3) [OF assms(1)] by simp
qed

theorem empty_credentials_absent_witness:
  "(\<exists>srv. startup [''http://localhost:8529'', '''', ''secret''] = Inr srv
          \<and> auth (globals srv) = None \<and> config_auth (db srv) = None)
   \<and> (\<exists>srv. startup [''http://localhost:8529'', ''root'', ''''] = Inr srv
          \<and> auth (globals srv) = None \<and> config_auth (db srv) = None)"
proof -
  have p: "[''http://localhost:8529'', '''', ''secret'']
             = filter (\<lambda>a. \<not> is_flag a) [''http://localhost:8529'', '''', ''secret'']"
    by (simp add: is_flag_def startsWith_def)
  have q: "[''http://localhost:8529'', ''root'', '''']
             = filter (\<lambda>a. \<not> is_flag a) [''http://localhost:8529'', ''root'', '''']"
    by (simp add: is_flag_def startsWith_def)
  obtain srv where s: "startup [''http://localhost:8529'', '''', ''secret''] = Inr srv"
    by (simp add: startup_def parse_arguments_def is_flag_def startsWith_def KNOWN_FLAGS_def
        credentials_def new_Database_def)
  obtain srv' where s': "startup [''http://localhost:8529'', ''root'', ''''] = Inr srv'"
    by (simp add: startup_def parse_arguments_def is_flag_def startsWith_def KNOWN_FLAGS_def
        credentials_def new_Database_def)
  have "auth (globals srv) = None \<and> config_auth (db srv) = None"
    using empty_credentials_absent [OF s p] by simp
  moreover have "auth (globals srv') = None \<and> config_auth (db srv') = None"
    using empty_credentials_absent [OF s' q] by simp
  ultimately show ?thesis using s s' by blast
qed

section \<open>Properties of the connection cache\<close>

lemma new_Database_distinct:
  assumes "new_Database url n a s = (first, s1)" and "new_Database url n a s1 = (second, s2)"
  shows "second \<noteq> first"
    and "config_url second = config_url first"
    and "config_databaseName second = config_databaseName first"
    and "config_auth second = config_auth first"
  using assms by (auto simp: new_Database_def)

lemma getOrCreate_cached:
  "databaseConnections s n = Some c \<Longrightarrow> getOrCreateDatabaseConnection g n s = (c, s)"
  by (simp add: getOrCreateDatabaseConnection_def)

lemma getOrCreate_stores:
  "databaseConnections (snd (getOrCreateDatabaseConnection g n s)) n
     = Some (fst (getOrCreateDatabaseConnection g n s))"
  by (simp add: getOrCreateDatabaseConnection_def new_Database_def split: option.splits)

lemma getOrCreate_keeps:
  "databaseConnections s m = Some c \<Longrightarrow>
     databaseConnections (snd (getOrCreateDatabaseConnection g n s)) m = Some c"
  by (auto simp: getOrCreateDatabaseConnection_def new_Database_def split: option.splits)

lemma getOrCreate_fresh:
  "databaseConnections s n = None \<Longrightarrow>
     getOrCreateDatabaseConnection g n s =
       (\<lparr> object_id = constructed s, config_url = databaseUrl g,
           config_databaseName = Some n, config_auth = auth g \<rparr>,
        s\<lparr> constructed := Suc (constructed s),
            databaseConnections := (databaseConnections s)(n \<mapsto>
              \<lparr> object_id = constructed s, config_url = databaseUrl g,
                config_databaseName = Some n, config_auth = auth g \<rparr>) \<rparr>)"
  by (simp add: getOrCreateDatabaseConnection_def new_Database_def)

lemma getOrCreate_cache_ok:
  "cache_ok s \<Longrightarrow> cache_ok (snd (getOrCreateDatabaseConnection g n s))"
  by (auto simp: cache_ok_def getOrCreateDatabaseConnection_def new_Database_def
      split: option.splits)

lemma getOrCreate_database_of:
  "cache_ok s \<Longrightarrow> database_of (fst (getOrCreateDatabaseConnection g n s)) = n"
  by (auto simp: cache_ok_def getOrCreateDatabaseConnection_def new_Database_def
      database_of_def split: option.splits)

lemma map_callback_keeps:
  assumes "\<And>x s. databaseConnections s m = Some c \<Longrightarrow> databaseConnections (snd (f x s)) m = Some c"
  shows "databaseConnections s m = Some c \<Longrightarrow>
         databaseConnections (snd (map_callback f xs s)) m = Some c"
proof (induction xs arbitrary: s)
  case Nil
  then show ?case by simp
next
  case (Cons x xs)
  have "databaseConnections (snd (f x s)) m = Some c"
    using Cons.prems by (rule assms)
  then have "databaseConnections (snd (map_callback f xs (snd (f x s)))) m = Some c"
    by (rule Cons.IH)
  then show ?case
    by (simp add: case_prod_unfold Let_def)
qed

lemma snd_collections_of_database:
  "snd (collections_of_database g env d s) = snd (getOrCreateDatabaseConnection g d s)"
  by (simp add: collections_of_database_def case_prod_unfold Let_def)

lemma snd_answer: "snd (answer w r) = snd r"
  by (simp add: answer_def)

lemma list_keeps:
  "databaseConnections s m = Some c \<Longrightarrow>
     databaseConnections (snd (list_collection_resources g env s)) m = Some c"
  unfolding list_collection_resources_def
  by (auto simp: Let_def case_prod_unfold snd_collections_of_database
      intro!: map_callback_keeps getOrCreate_keeps split: sum.splits)

lemma handlers_snd:
  "snd (read_collection_resource g env href d col s) = snd (getOrCreateDatabaseConnection g d s)"
  "snd (read_document_resource g env href d col k s) = snd (getOrCreateDatabaseConnection g d s)"
  "snd (readQuery g env d q s) = snd (getOrCreateDatabaseConnection g d s)"
  "snd (readWriteQuery g env d q s) = snd (getOrCreateDatabaseConnection g d s)"
  "snd (listDatabases env s) = s"
  "snd (listCollections g env d s) = snd (getOrCreateDatabaseConnection g d s)"
  by (simp_all add: read_collection_resource_def read_document_resource_def readQuery_def
      readWriteQuery_def listDatabases_def listCollections_def case_prod_unfold Let_def
      split: sum.splits)

lemma handle_keeps:
  "databaseConnections s m = Some c \<Longrightarrow>
     databaseConnections (snd (handle srv env r s)) m = Some c"
  by (cases r)
    (simp_all add: snd_answer call_tool_def handlers_snd list_keeps getOrCreate_keeps)

lemma run_keeps:
  "databaseConnections s m = Some c \<Longrightarrow>
     databaseConnections (run srv steps s) m = Some c"
proof (induction steps arbitrary: s)
  case Nil
  then show ?case by simp
next
  case (Cons step steps)
  obtain env r where step: "step = (env, r)" by (cases step)
  from Cons.prems have "databaseConnections (snd (handle srv env r s)) m = Some c"
    by (rule handle_keeps)
  then show ?case
    unfolding step by (simp add: Cons.IH)
qed

lemma example_server_startup: "startup [''http://localhost:8529''] = Inr example_server"
  by (simp add: startup_def parse_arguments_def is_flag_def startsWith_def KNOWN_FLAGS_def
      credentials_def new_Database_def register_tools_def register_resources_def
      example_server_def example_globals_def initial_state_def)

lemma cache_ok_initial: "cache_ok initial_state"
  by (simp add: cache_ok_def initial_state_def)

lemma example_first_lookup:
  "getOrCreateDatabaseConnection example_globals ''mydb'' initial_state
     = (example_connection, example_cached)"
  by (simp add: getOrCreateDatabaseConnection_def new_Database_def example_globals_def
      initial_state_def example_connection_def example_cached_def)

lemma map_callback_cache_ok:
  assumes "\<And>x s. cache_ok s \<Longrightarrow> cache_ok (snd (f x s))"
  shows "cache_ok s \<Longrightarrow> cache_ok (snd (map_callback f xs s))"
proof (induction xs arbitrary: s)
  case Nil
  then show ?case by simp
next
  case (Cons x xs)
  have "cache_ok (snd (f x s))"
    using Cons.prems by (rule assms)
  then have "cache_ok (snd (map_callback f xs (snd (f x s))))"
    by (rule Cons.IH)
  then show ?case
    by (simp add: case_prod_unfold Let_def)
qed

lemma list_cache_ok:
  "cache_ok s \<Longrightarrow> cache_ok (snd (list_collection_resources g env s))"
  unfolding list_collection_resources_def
  by (auto simp: Let_def case_prod_unfold snd_collections_of_database
      intro!: map_callback_cache_ok getOrCreate_cache_ok split: sum.splits)

lemma handle_cache_ok: "cache_ok s \<Longrightarrow> cache_ok (snd (handle srv env r s))"
  by (cases r)
    (simp_all add: snd_answer call_tool_def handlers_snd list_cache_ok getOrCreate_cache_ok)

lemma run_cache_ok: "cache_ok s \<Longrightarrow> cache_ok (run srv steps s)"
proof (induction steps arbitrary: s)
  case Nil
  then show ?case by simp
next
  case (Cons step steps)
  obtain env r where step: "step = (env, r)" by (cases step)
  from Cons.prems have "cache_ok (snd (handle srv env r s))"
    by (rule handle_cache_ok)
  then show ?case
    unfolding step by (simp add: Cons.IH)
qed

lemma reachable_cache_ok:
  assumes "startup rawArgs = Inr srv"
  shows "cache_ok (run srv steps (state srv))"
proof -
  have "cache_ok (state srv)"
    using startup_Inr(4) [OF assms] by (simp add: cache_ok_def)
  then show ?thesis by (rule run_cache_ok)
qed

section \<open>Claims about the connection cache\<close>

text \<open>
  C1: two successive calls of \<^verbatim>\<open>getOrCreateDatabaseConnection\<close> with the same name return
  the same connection object (the same instance: also the object identities agree), and
  the second call leaves the state, with the cache and the count of constructed objects,
  as the first call left it.  This holds for every name, the non-empty ones included.
\<close>

theorem cache_identity:
  assumes "getOrCreateDatabaseConnection g n s = (first, s1)"
    and "getOrCreateDatabaseConnection g n s1 = (second, s2)"
  shows "second = first \<and> object_id second = object_id first \<and> s2 = s1"
proof -
  have "databaseConnections s1 n = Some first"
    using getOrCreate_stores [of g n s] assms(1) by simp
  then have "getOrCreateDatabaseConnection g n s1 = (first, s1)"
    by (rule getOrCreate_cached)
  with assms(2) show ?thesis by simp
qed

theorem cache_identity_witness:
  "getOrCreateDatabaseConnection example_globals ''mydb'' initial_state
     = (example_connection, example_cached)
   \<and> getOrCreateDatabaseConnection example_globals ''mydb'' example_cached
     = (example_connection, example_cached)"
proof -
  obtain second s2
    where again: "getOrCreateDatabaseConnection example_globals ''mydb'' example_cached
                    = (second, s2)"
    by (cases "getOrCreateDatabaseConnection example_globals ''mydb'' example_cached")
  from cache_identity [OF example_first_lookup again]
  have "second = example_connection" and "s2 = example_cached"
    by simp_all
  with again example_first_lookup show ?thesis by simp
qed

text \<open>
  C5: the cache only grows.  No handler removes or replaces an entry: an entry that is
  in the cache before a request is in it, unchanged, after the request, and after any
  sequence of requests.  So once \<^verbatim>\<open>getOrCreateDatabaseConnection\<close> has stored a connection
  for a name, after any further requests the cache still holds that connection for the
  name, and a lookup of the name returns it and changes nothing.
\<close>

theorem cache_persistence:
  assumes "getOrCreateDatabaseConnection (globals srv) databaseName s0 = (dbConnector, s1)"
  shows "(\<forall>m c. databaseConnections s m = Some c \<longrightarrow>
            databaseConnections (snd (handle srv env r s)) m = Some c)
       \<and> (\<forall>m c. databaseConnections s m = Some c \<longrightarrow>
            databaseConnections (run srv steps s) m = Some c)
       \<and> databaseConnections (run srv steps s1) databaseName = Some dbConnector
       \<and> getOrCreateDatabaseConnection (globals srv) databaseName (run srv steps s1)
           = (dbConnector, run srv steps s1)"
proof -
  have "databaseConnections s1 databaseName = Some dbConnector"
    using getOrCreate_stores [of "globals srv" databaseName s0] assms by simp
  then have later: "databaseConnections (run srv steps s1) databaseName = Some dbConnector"
    by (rule run_keeps)
  then have "getOrCreateDatabaseConnection (globals srv) databaseName (run srv steps s1)
           = (dbConnector, run srv steps s1)"
    by (rule getOrCreate_cached)
  with later show ?thesis
    by (simp add: handle_keeps run_keeps)
qed

theorem cache_persistence_witness:
  "databaseConnections (run example_server example_steps example_cached) ''mydb''
     = Some example_connection
   \<and> getOrCreateDatabaseConnection example_globals ''mydb''
       (run example_server example_steps example_cached)
     = (example_connection, run example_server example_steps example_cached)"
proof -
  have g: "globals example_server = example_globals"
    by (simp add: example_server_def)
  have first: "getOrCreateDatabaseConnection (globals example_server) ''mydb'' initial_state
     = (example_connection, example_cached)"
    unfolding g by (rule example_first_lookup)
  from cache_persistence [OF first, of _ _ _ example_steps] show ?thesis
    unfolding g by blast
qed

section \<open>Properties of the listings\<close>

lemma collectionSchema_parse_row:
  "collectionSchema_parse (JObject [(''_id'', JString (coll_id c)), (''name'', JString (coll_name c))])
     = Inr c"
  by (cases c) simp

lemma parse_rows_query:
  "parse_rows (collections_query cols) acc
     = Inr (acc @ filter (\<lambda>c. \<not> startsWith (coll_name c) ''_'') cols)"
proof (induction cols arbitrary: acc)
  case Nil
  show ?case by (simp add: collections_query_def)
next
  case (Cons c cols)
  have IH: "parse_rows (collections_query cols) acc'
     = Inr (acc' @ filter (\<lambda>c. \<not> startsWith (coll_name c) ''_'') cols)" for acc'
    by (rule Cons.IH)
  show ?case
  proof (cases "startsWith (coll_name c) ''_''")
    case True
    have "collections_query (c # cols) = collections_query cols"
      using True by (simp add: collections_query_def)
    with True IH show ?thesis by simp
  next
    case False
    have "collections_query (c # cols)
            = JObject [(''_id'', JString (coll_id c)), (''name'', JString (coll_name c))]
              # collections_query cols"
      using False by (simp add: collections_query_def)
    then have "parse_rows (collections_query (c # cols)) acc
            = parse_rows (collections_query cols) (acc @ [c])"
      by (simp only: parse_rows.simps collectionSchema_parse_row sum.case)
    with False IH show ?thesis by simp
  qed
qed

lemma getCollections_eq:
  "getCollections env dbConnection =
     (case COLLECTIONS env (database_of dbConnection) of
        Inl e \<Rightarrow> Inl e
      | Inr cols \<Rightarrow> Inr (filter (\<lambda>c. \<not> startsWith (coll_name c) ''_'') cols))"
  by (simp add: getCollections_def parse_rows_query split: sum.splits)

lemma Promise_all_rejects: "p \<in> set ps \<Longrightarrow> isl p \<Longrightarrow> isl (Promise_all ps)"
  by (induction ps) (auto split: sum.splits)

lemma Promise_all_resolves: "Promise_all (map Inr xs) = Inr xs"
  by (induction xs) auto

lemma fst_collections_of_database:
  "cache_ok s \<Longrightarrow>
     fst (collections_of_database g env d s) =
       (case COLLECTIONS env d of
          Inl e \<Rightarrow> Inl e
        | Inr cols \<Rightarrow> Inr (d, filter (\<lambda>c. \<not> startsWith (coll_name c) ''_'') cols))"
  by (simp add: collections_of_database_def case_prod_unfold Let_def getCollections_eq
      getOrCreate_database_of split: sum.splits)

lemma map_callback_collections:
  "cache_ok s \<Longrightarrow>
     fst (map_callback (collections_of_database g env) ds s) =
       map (\<lambda>d. case COLLECTIONS env d of
                   Inl e \<Rightarrow> Inl e
                 | Inr cols \<Rightarrow> Inr (d, filter (\<lambda>c. \<not> startsWith (coll_name c) ''_'') cols)) ds"
proof (induction ds arbitrary: s)
  case Nil
  show ?case by simp
next
  case (Cons d ds)
  have "cache_ok (snd (collections_of_database g env d s))"
    using Cons.prems by (simp add: snd_collections_of_database getOrCreate_cache_ok)
  then show ?case
    using Cons.prems Cons.IH
    by (simp add: case_prod_unfold Let_def fst_collections_of_database)
qed

lemma listing_healthy:
  "fst (list_collection_resources example_globals
          (example_env \<lparr> all_databases := Inr [''_system'', ''mydb''] \<rparr>) initial_state)
     = Inr [\<lparr> res_uri = ''arangodb:///mydb/users'', res_mimeType = ''application/json'',
               res_name = ''mydb/users'',
               res_description = ''Collection '' @ [CHR 0x22] @ ''users'' @ [CHR 0x22]
                 @ '' in database '' @ [CHR 0x22] @ ''mydb'' @ [CHR 0x22] \<rparr>]"
  by (simp add: list_collection_resources_def collections_of_database_def
      getOrCreateDatabaseConnection_def new_Database_def getCollections_def database_of_def
      collections_query_def startsWith_def resource_of_def
      example_env_def example_globals_def initial_state_def)

lemma Promise_all_map_Inr: "Promise_all (map (\<lambda>x. Inr (f x)) xs) = Inr (map f xs)"
  by (induction xs) auto

lemma listing_resolves:
  assumes "cache_ok s"
    and "all_databases env = Inr allDatabases"
    and "\<And>d. d \<in> set allDatabases \<Longrightarrow> d \<noteq> ''_system'' \<Longrightarrow> COLLECTIONS env d = Inr (cols d)"
  shows "fst (list_collection_resources g env s) =
           Inr (concat (map (\<lambda>d. map (resource_of d)
                                    (filter (\<lambda>c. \<not> startsWith (coll_name c) ''_'') (cols d)))
                          (filter (\<lambda>d. d \<noteq> ''_system'') allDatabases)))"
proof -
  let ?user = "filter (\<lambda>d. d \<noteq> ''_system'') allDatabases"
  let ?visible = "\<lambda>d. filter (\<lambda>c. \<not> startsWith (coll_name c) ''_'') (cols d)"
  have "fst (map_callback (collections_of_database g env) ?user s)
          = map (\<lambda>d. Inr (d, ?visible d)) ?user"
    unfolding map_callback_collections [OF assms(1)]
    using assms(3) by (intro map_cong) auto
  then have "Promise_all (fst (map_callback (collections_of_database g env) ?user s))
          = Inr (map (\<lambda>d. (d, ?visible d)) ?user)"
    by (simp only: Promise_all_map_Inr)
  then show ?thesis
    using assms(2)
    by (simp add: list_collection_resources_def Let_def case_prod_unfold comp_def)
qed

section \<open>Claims about the listings\<close>

text \<open>
  C7: when the collections of one of the databases other than \<^verbatim>\<open>_system\<close> cannot be
  fetched (\<^verbatim>\<open>getCollections\<close> fails on a connection to it), the listing of the collection
  resources fails as a whole: its result is an error, and is no list of resources, so
  none with the failing database left out.  The state is any state in which every cached
  connection is the one made for its key, as every state of a running process is
  (\<open>reachable_cache_ok\<close>).
\<close>

theorem listing_all_or_nothing:
  assumes "cache_ok s"
    and "all_databases env = Inr allDatabases"
    and "database \<in> set allDatabases" and "database \<noteq> ''_system''"
    and "config_databaseName dbConnection = Some database"
    and "getCollections env dbConnection = Inl e"
  shows "isl (fst (list_collection_resources g env s))
       \<and> (\<forall>resources. fst (list_collection_resources g env s) \<noteq> Inr resources)"
proof -
  let ?user = "filter (\<lambda>d. d \<noteq> ''_system'') allDatabases"
  let ?promises = "fst (map_callback (collections_of_database g env) ?user s)"
  have "database_of dbConnection = database"
    using assms(5) by (simp add: database_of_def)
  with assms(6) have "isl (COLLECTIONS env database)"
    by (auto simp: getCollections_eq split: sum.splits)
  moreover have "database \<in> set ?user"
    using assms(3,4) by simp
  ultimately have "\<exists>p \<in> set ?promises. isl p"
    unfolding map_callback_collections [OF assms(1)]
    by (auto split: sum.splits intro!: bexI [of _ database])
  then have "isl (Promise_all ?promises)"
    by (auto intro: Promise_all_rejects)
  then have "isl (fst (list_collection_resources g env s))"
    using assms(2)
    by (auto simp: list_collection_resources_def Let_def case_prod_unfold split: sum.splits)
  then show ?thesis by auto
qed

theorem listing_all_or_nothing_witness:
  "isl (fst (list_collection_resources example_globals example_env initial_state))"
proof -
  have dbs: "all_databases example_env = Inr [''_system'', ''mydb'', ''broken'']"
    by (simp add: example_env_def)
  have c: "config_databaseName
             \<lparr> object_id = 2, config_url = ''http://localhost:8529'',
               config_databaseName = Some ''broken'', config_auth = None \<rparr> = Some ''broken''"
    by simp
  have f: "getCollections example_env
             \<lparr> object_id = 2, config_url = ''http://localhost:8529'',
               config_databaseName = Some ''broken'', config_auth = None \<rparr>
           = Inl (DriverError ''database not found'')"
    by (simp add: getCollections_def database_of_def example_env_def)
  from listing_all_or_nothing [OF cache_ok_initial dbs _ _ c f, of example_globals]
  show ?thesis by simp
qed

text \<open>
  C8: for a database whose collections can be read, \<^verbatim>\<open>listCollections\<close> returns exactly
  the collections whose names do not start with \<^verbatim>\<open>_\<close>, in the order of the database, each
  as an object whose only field is \<^verbatim>\<open>name\<close>.  The state is any state in which every
  cached connection is the one made for its key (\<open>reachable_cache_ok\<close>).  The witness is
  the database with the collections \<^verbatim>\<open>users\<close> and \<^verbatim>\<open>_internal\<close>, which yields
  \<^verbatim>\<open>[{name: "users"}]\<close>.
\<close>

theorem listCollections_underscore_filtering:
  assumes "cache_ok s"
    and "COLLECTIONS env databaseName = Inr cols"
  shows "fst (listCollections g env databaseName s)
           = Inr (JArray (map (\<lambda>c. JObject [(''name'', JString (coll_name c))])
                            (filter (\<lambda>c. \<not> startsWith (coll_name c) ''_'') cols)))"
  using assms
  by (simp add: listCollections_def case_prod_unfold Let_def getCollections_eq
      getOrCreate_database_of)

theorem listCollections_underscore_filtering_witness:
  "fst (listCollections example_globals example_env ''mydb'' initial_state)
     = Inr (JArray [JObject [(''name'', JString ''users'')]])"
proof -
  have cols: "COLLECTIONS example_env ''mydb''
                = Inr [\<lparr> coll_id = ''101'', coll_name = ''users'' \<rparr>,
                       \<lparr> coll_id = ''102'', coll_name = ''_internal'' \<rparr>]"
    by (simp add: example_env_def)
  from listCollections_underscore_filtering [OF cache_ok_initial cols, of example_globals]
  show ?thesis by (simp add: startsWith_def)
qed

end
